theory Spec2Isabelle
  imports Main "HOL-Library.AList"
begin

section \<open>Configuration (config.ts)\<close>

text \<open>
  \<^verbatim>\<open>authMode: z.enum(['shared', 'per-user', 'hybrid'])\<close>. The two numeric fields of the
  configuration are never read by the client class; they are kept for the shape of the record.
\<close>

datatype AuthMode = Shared | PerUser | Hybrid

record Config =
  gitlabUrl :: string
  sharedAccessToken :: "string option"
  maxPageSize :: int
  defaultTimeout :: int
  authMode :: AuthMode

text \<open>
  \<^verbatim>\<open>UserConfig = { accessToken: string, gitlabUrl?: string }\<close>. The optional endpoint
  override is the field \<open>gitlabUrl\<close> of the source.
\<close>

record UserConfig =
  accessToken :: string
  gitlabUrl_opt :: "string option"

text \<open>
  JavaScript truthiness of an optional string: \<^verbatim>\<open>undefined\<close> and the empty string are
  falsy. \<open>or_else v d\<close> is the expression \<^verbatim>\<open>v || d\<close>.
\<close>

definition truthy :: "string option \<Rightarrow> bool" where
  "truthy v = (case v of None \<Rightarrow> False | Some t \<Rightarrow> t \<noteq> [])"

definition or_else :: "string option \<Rightarrow> string \<Rightarrow> string" where
  "or_else v d = (case v of None \<Rightarrow> d | Some t \<Rightarrow> if t = [] then d else t)"

section \<open>Thrown values\<close>

text \<open>
  A thrown JavaScript error object, with the two properties that
  \<^verbatim>\<open>Error.prototype.toString\<close> reads. \<open>Error msg\<close> is \<^verbatim>\<open>new Error(msg)\<close>; the
  class of the object (its kind) is its \<open>name\<close>. \<open>toString e\<close> is what the template
  literal \<^verbatim>\<open>${error}\<close> renders. A thrown value that is not an error object is a
  \<open>js_error\<close> with an empty name, rendered as its message alone.
\<close>

record js_error =
  name :: string
  message :: string

definition Error :: "string \<Rightarrow> js_error" where
  "Error msg = \<lparr>name = ''Error'', message = msg\<rparr>"

definition toString :: "js_error \<Rightarrow> string" where
  "toString e =
     (if name e = [] then message e
      else if message e = [] then name e
      else name e @ '': '' @ message e)"

section \<open>The imported libraries\<close>

text \<open>
  A \<^verbatim>\<open>GraphQLClient\<close> object of graphql-request: the endpoint and the headers it was
  constructed with. Objects live in a store (the field \<open>heap\<close> below); a reference is the
  index of the object in the store, so that two references are the same instance exactly
  when they are equal.
\<close>

record GraphQLClient =
  endpoint :: string
  headers :: "(string \<times> string) list"

type_synonym ref = nat

text \<open>
  A \<^verbatim>\<open>GraphQLSchema\<close>: the query and the mutation root types, each (when present) with
  its fields in insertion order, a field name paired with the name of the field's type.
\<close>

type_synonym GraphQLObjectType = "(string \<times> string) list"

record GraphQLSchema =
  getQueryType :: "GraphQLObjectType option"
  getMutationType :: "GraphQLObjectType option"

text \<open>
  What the class imports and does not define: \<open>request\<close> is \<^verbatim>\<open>client.request\<close>, the
  network exchange. Its outcome depends on the moment (the number of exchanges issued
  before it), on the client object, on the query text and on the variables; it either
  throws or returns a decoded payload of the opaque type \<open>'r\<close>.
  \<open>buildClientSchema\<close> may throw on a malformed introspection result.
\<close>

record 'r graphql_lib =
  request :: "nat \<Rightarrow> GraphQLClient \<Rightarrow> string \<Rightarrow> 'r option \<Rightarrow> js_error + 'r"
  getIntrospectionQuery :: string
  buildClientSchema :: "'r \<Rightarrow> js_error + GraphQLSchema"

section \<open>The class GitLabGraphQLClient (gitlab-client.ts)\<close>

text \<open>
  The four private fields of the class, followed by the store of the
  \<^verbatim>\<open>GraphQLClient\<close> objects constructed so far and the log of the network exchanges
  issued so far (the client reference and the query text of each).
  \<open>userClients\<close> is the JavaScript \<^verbatim>\<open>Map\<close>, in insertion order: \<open>map_of\<close> is
  \<^verbatim>\<open>get\<close>/\<^verbatim>\<open>has\<close> and \<open>AList.update\<close> is \<^verbatim>\<open>set\<close>.
\<close>

record GitLabGraphQLClient =
  baseClient :: "ref option"
  config :: Config
  schema :: "GraphQLSchema option"
  userClients :: "(string \<times> ref) list"
  heap :: "GraphQLClient list"
  requests :: "(ref \<times> string) list"

text \<open>\<^verbatim>\<open>gitlabUrl.replace(/\/$/, '')\<close>: one slash at the very end is removed.\<close>

definition strip_trailing_slash :: "string \<Rightarrow> string" where
  "strip_trailing_slash u = (if u \<noteq> [] \<and> last u = CHR ''/'' then butlast u else u)"

definition createClient ::
  "GitLabGraphQLClient \<Rightarrow> string \<Rightarrow> string \<Rightarrow> ref \<times> GitLabGraphQLClient" where
  "createClient s url tok =
     (length (heap s),
      s\<lparr>heap := heap s @
          [\<lparr>endpoint = strip_trailing_slash url @ ''/api/graphql'',
            headers = [(''Authorization'', ''Bearer '' @ tok),
                       (''Content-Type'', ''application/json'')]\<rparr>]\<rparr>)"

definition constructor :: "Config \<Rightarrow> GitLabGraphQLClient" where
  "constructor cfg =
     (let s = \<lparr>baseClient = None, config = cfg, schema = None, userClients = [],
               heap = [], requests = []\<rparr>
      in case sharedAccessToken cfg of
           None \<Rightarrow> s
         | Some tok \<Rightarrow>
             if tok = [] then s
             else (case createClient s (gitlabUrl cfg) tok of
                     (c, s') \<Rightarrow> s'\<lparr>baseClient := Some c\<rparr>))"

text \<open>
  The expression \<^verbatim>\<open>userConfig.gitlabUrl || this.config.gitlabUrl\<close>, which the source
  writes out twice, and the key string built from it.
\<close>

definition effectiveUrl :: "Config \<Rightarrow> UserConfig \<Rightarrow> string" where
  "effectiveUrl cfg uc = or_else (gitlabUrl_opt uc) (gitlabUrl cfg)"

definition userKey :: "Config \<Rightarrow> UserConfig \<Rightarrow> string" where
  "userKey cfg uc = effectiveUrl cfg uc @ '':'' @ accessToken uc"

definition getUserClient ::
  "GitLabGraphQLClient \<Rightarrow> UserConfig \<Rightarrow> ref \<times> GitLabGraphQLClient" where
  "getUserClient s uc =
     (let k = userKey (config s) uc;
          s' = (if map_of (userClients s) k = None
                then (case createClient s (effectiveUrl (config s) uc) (accessToken uc) of
                        (c, s1) \<Rightarrow> s1\<lparr>userClients := AList.update k c (userClients s1)\<rparr>)
                else s)
      in (the (map_of (userClients s') k), s'))"

definition getClient ::
  "GitLabGraphQLClient \<Rightarrow> UserConfig option \<Rightarrow> bool \<Rightarrow>
     (js_error + ref) \<times> GitLabGraphQLClient" where
  "getClient s userConfig requiresWrite =
     (case userConfig of
        Some uc \<Rightarrow> (case getUserClient s uc of (c, s') \<Rightarrow> (Inr c, s'))
      | None \<Rightarrow>
          if requiresWrite then
            (Inl (Error (''Write operations require user authentication. '' @
                         ''Please provide your GitLab credentials.'')), s)
          else if baseClient s \<noteq> None \<and> authMode (config s) \<noteq> PerUser then
            (Inr (the (baseClient s)), s)
          else if authMode (config s) = PerUser \<or> authMode (config s) = Hybrid then
            (Inl (Error (''This operation requires user authentication. '' @
                         ''Please provide your GitLab credentials.'')), s)
          else
            (Inl (Error (''No authentication configured. Please provide GitLab '' @
                         ''credentials or configure a shared access token.'')), s))"

text \<open>
  \<^verbatim>\<open>client.request(query, variables)\<close>: one network exchange, logged. The reference
  \<open>c\<close> comes from \<open>getClient\<close>, so it points into the store.
\<close>

definition client_request ::
  "'r graphql_lib \<Rightarrow> GitLabGraphQLClient \<Rightarrow> ref \<Rightarrow> string \<Rightarrow> 'r option \<Rightarrow>
     (js_error + 'r) \<times> GitLabGraphQLClient" where
  "client_request lib s c q vars =
     (request lib (length (requests s)) (heap s ! c) q vars,
      s\<lparr>requests := requests s @ [(c, q)]\<rparr>)"

definition introspectSchema ::
  "'r graphql_lib \<Rightarrow> GitLabGraphQLClient \<Rightarrow> UserConfig option \<Rightarrow>
     (js_error + unit) \<times> GitLabGraphQLClient" where
  "introspectSchema lib s userConfig =
     (if schema s \<noteq> None then (Inr (), s)
      else
        (case getClient s userConfig False of
           (Inl e, s1) \<Rightarrow>
             (Inl (Error (''Failed to introspect GitLab GraphQL schema: '' @ toString e)), s1)
         | (Inr c, s1) \<Rightarrow>
             (case client_request lib s1 c (getIntrospectionQuery lib) None of
                (Inl e, s2) \<Rightarrow>
                  (Inl (Error (''Failed to introspect GitLab GraphQL schema: '' @ toString e)),
                   s2)
              | (Inr r, s2) \<Rightarrow>
                  (case buildClientSchema lib r of
                     Inl e \<Rightarrow>
                       (Inl (Error (''Failed to introspect GitLab GraphQL schema: '' @
                                    toString e)), s2)
                   | Inr sch \<Rightarrow> (Inr (), s2\<lparr>schema := Some sch\<rparr>)))))"

text \<open>
  \<open>introspectSchema\<close> is asynchronous: it runs up to its
  \<^verbatim>\<open>await client.request(...)\<close>, where other calls may run, and goes on when the
  exchange has been answered. \<open>introspectSchema_start\<close> is the part before the await: the
  test of \<open>schema\<close>, the resolution of the client and the issue of the exchange.
  \<open>introspectSchema_resume\<close> is the part after it: the outcome of the exchange numbered
  \<open>n\<close>, the construction of the schema and the assignment to \<open>schema\<close>.
  \<open>introspectSchema\<close> above is the first part followed at once by the second.
\<close>

datatype started = Returned "js_error + unit" | Awaiting ref nat

definition introspectSchema_start ::
  "'r graphql_lib \<Rightarrow> GitLabGraphQLClient \<Rightarrow> UserConfig option \<Rightarrow>
     started \<times> GitLabGraphQLClient" where
  "introspectSchema_start lib s userConfig =
     (if schema s \<noteq> None then (Returned (Inr ()), s)
      else
        (case getClient s userConfig False of
           (Inl e, s1) \<Rightarrow>
             (Returned (Inl (Error (''Failed to introspect GitLab GraphQL schema: '' @
                                    toString e))), s1)
         | (Inr c, s1) \<Rightarrow>
             (Awaiting c (length (requests s1)),
              s1\<lparr>requests := requests s1 @ [(c, getIntrospectionQuery lib)]\<rparr>)))"

definition introspectSchema_resume ::
  "'r graphql_lib \<Rightarrow> GitLabGraphQLClient \<Rightarrow> ref \<Rightarrow> nat \<Rightarrow>
     (js_error + unit) \<times> GitLabGraphQLClient" where
  "introspectSchema_resume lib s c n =
     (case request lib n (heap s ! c) (getIntrospectionQuery lib) None of
        Inl e \<Rightarrow>
          (Inl (Error (''Failed to introspect GitLab GraphQL schema: '' @ toString e)), s)
      | Inr r \<Rightarrow>
          (case buildClientSchema lib r of
             Inl e \<Rightarrow>
               (Inl (Error (''Failed to introspect GitLab GraphQL schema: '' @ toString e)), s)
           | Inr sch \<Rightarrow> (Inr (), s\<lparr>schema := Some sch\<rparr>)))"

definition query ::
  "'r graphql_lib \<Rightarrow> GitLabGraphQLClient \<Rightarrow> string \<Rightarrow> 'r option \<Rightarrow> UserConfig option \<Rightarrow>
     bool \<Rightarrow> (js_error + 'r) \<times> GitLabGraphQLClient" where
  "query lib s q vars userConfig requiresWrite =
     (case getClient s userConfig requiresWrite of
        (Inl e, s1) \<Rightarrow> (Inl (Error (''GraphQL query failed: '' @ toString e)), s1)
      | (Inr c, s1) \<Rightarrow>
          (case client_request lib s1 c q vars of
             (Inl e, s2) \<Rightarrow> (Inl (Error (''GraphQL query failed: '' @ toString e)), s2)
           | (Inr r, s2) \<Rightarrow> (Inr r, s2)))"

definition getAvailableQueries :: "GitLabGraphQLClient \<Rightarrow> string list" where
  "getAvailableQueries s =
     (case schema s of
        None \<Rightarrow> []
      | Some sch \<Rightarrow> (case getQueryType sch of None \<Rightarrow> [] | Some t \<Rightarrow> map fst t))"

definition getAvailableMutations :: "GitLabGraphQLClient \<Rightarrow> string list" where
  "getAvailableMutations s =
     (case schema s of
        None \<Rightarrow> []
      | Some sch \<Rightarrow> (case getMutationType sch of None \<Rightarrow> [] | Some t \<Rightarrow> map fst t))"

section \<open>Runs of the process\<close>

text \<open>
  The calls that touch the state of the object: the two public asynchronous methods (every
  other public method of the class is a fixed query text handed to \<open>query\<close>) and the two
  private resolvers. A run executes calls one after the other, each awaited to its end
  before the next is started.
\<close>

datatype 'r call =
    GetUserClient UserConfig
  | GetClient "UserConfig option" bool
  | IntrospectSchema "UserConfig option"
  | Query string "'r option" "UserConfig option" bool

fun exec :: "'r graphql_lib \<Rightarrow> GitLabGraphQLClient \<Rightarrow> 'r call \<Rightarrow> GitLabGraphQLClient" where
  "exec lib s (GetUserClient uc) = snd (getUserClient s uc)"
| "exec lib s (GetClient u w) = snd (getClient s u w)"
| "exec lib s (IntrospectSchema u) = snd (introspectSchema lib s u)"
| "exec lib s (Query q vars u w) = snd (query lib s q vars u w)"

fun run :: "'r graphql_lib \<Rightarrow> GitLabGraphQLClient \<Rightarrow> 'r call list \<Rightarrow> GitLabGraphQLClient" where
  "run lib s [] = s"
| "run lib s (c # cs) = run lib (exec lib s c) cs"

text \<open>
  Calls of \<open>introspectSchema\<close> that overlap: \<open>start_all\<close> starts every call before any
  exchange has been answered, and \<open>resume_all\<close> then lets the calls go on, in the order in
  which they were started.
\<close>

fun start_all ::
  "'r graphql_lib \<Rightarrow> GitLabGraphQLClient \<Rightarrow> UserConfig option list \<Rightarrow>
     started list \<times> GitLabGraphQLClient" where
  "start_all lib s [] = ([], s)"
| "start_all lib s (u # us) =
     (case introspectSchema_start lib s u of
        (p, s1) \<Rightarrow> (case start_all lib s1 us of (ps, s2) \<Rightarrow> (p # ps, s2)))"

fun resume_all ::
  "'r graphql_lib \<Rightarrow> GitLabGraphQLClient \<Rightarrow> started list \<Rightarrow>
     (js_error + unit) list \<times> GitLabGraphQLClient" where
  "resume_all lib s [] = ([], s)"
| "resume_all lib s (Returned r # ps) =
     (case resume_all lib s ps of (rs, s1) \<Rightarrow> (r # rs, s1))"
| "resume_all lib s (Awaiting c n # ps) =
     (case introspectSchema_resume lib s c n of
        (r, s1) \<Rightarrow> (case resume_all lib s1 ps of (rs, s2) \<Rightarrow> (r # rs, s2)))"

section \<open>Notions of the specification\<close>

text \<open>
  The specification names the three rejections of the auth policy by lower-case reason
  strings. The messages of the code begin with these reasons, written with a capital
  first letter, and go on with a hint for the caller. \<open>carries_reason e r\<close> holds when
  the message of \<open>e\<close>, read without regard to the case of its letters, begins with \<open>r\<close>.
\<close>

definition toLowerCase :: "string \<Rightarrow> string" where
  "toLowerCase =
     map (\<lambda>c. case map_of (zip ''ABCDEFGHIJKLMNOPQRSTUVWXYZ'' ''abcdefghijklmnopqrstuvwxyz'') c of
                Some l \<Rightarrow> l
              | None \<Rightarrow> c)"

definition carries_reason :: "js_error \<Rightarrow> string \<Rightarrow> bool" where
  "carries_reason e r = (take (length r) (toLowerCase (message e)) = r)"

text \<open>
  The specification's CredentialIdentity: the ordered pair of the effective endpoint and
  the token of a credential.
\<close>

definition credentialIdentity :: "Config \<Rightarrow> UserConfig \<Rightarrow> string \<times> string" where
  "credentialIdentity cfg uc = (effectiveUrl cfg uc, accessToken uc)"

text \<open>
  The credential that a call carries, and the number of client objects constructed, over
  a sequence of calls, by the calls that carry a credential of identity \<open>i\<close>.
\<close>

fun cred_of :: "'r call \<Rightarrow> UserConfig option" where
  "cred_of (GetUserClient uc) = Some uc"
| "cred_of (GetClient u w) = u"
| "cred_of (IntrospectSchema u) = u"
| "cred_of (Query q vars u w) = u"

fun constructions ::
  "'r graphql_lib \<Rightarrow> GitLabGraphQLClient \<Rightarrow> 'r call list \<Rightarrow> string \<times> string \<Rightarrow> nat" where
  "constructions lib s [] i = 0"
| "constructions lib s (c # cs) i =
     (if map_option (credentialIdentity (config s)) (cred_of c) = Some i
      then length (heap (exec lib s c)) - length (heap s) else 0) +
     constructions lib (exec lib s c) cs i"

text \<open>
  The invariant of the store: every cached reference points into the store, no two keys
  share a reference, and the shared client is none of the cached user clients.
\<close>

definition cache_ok :: "GitLabGraphQLClient \<Rightarrow> bool" where
  "cache_ok s =
     ((\<forall>c \<in> set (map snd (userClients s)). c < length (heap s)) \<and>
      distinct (map snd (userClients s)) \<and>
      (case baseClient s of
         None \<Rightarrow> True
       | Some b \<Rightarrow> b < length (heap s) \<and> b \<notin> set (map snd (userClients s))))"

section \<open>Concrete configurations, credentials and networks\<close>

text \<open>
  The inputs at which the theorems below are evaluated: configurations with the default
  endpoint, a few user credentials, and three behaviours of the network (always failing,
  always answering with a small schema, failing on the first exchange only). For these
  networks the decoded payload is the schema itself.
\<close>

definition cfg_of :: "AuthMode \<Rightarrow> string option \<Rightarrow> Config" where
  "cfg_of m tok = \<lparr>gitlabUrl = ''https://gitlab.com'', sharedAccessToken = tok,
     maxPageSize = 50, defaultTimeout = 30000, authMode = m\<rparr>"

definition cfg_hybrid :: Config where
  "cfg_hybrid = \<lparr>gitlabUrl = ''https://gitlab.com'', sharedAccessToken = Some ''glpat-shared'',
     maxPageSize = 50, defaultTimeout = 30000, authMode = Hybrid\<rparr>"

definition user_abc :: UserConfig where
  "user_abc = \<lparr>accessToken = ''abc'', gitlabUrl_opt = None\<rparr>"

definition user_T :: UserConfig where
  "user_T = \<lparr>accessToken = ''T'', gitlabUrl_opt = None\<rparr>"

definition user_T_explicit :: UserConfig where
  "user_T_explicit = \<lparr>accessToken = ''T'', gitlabUrl_opt = Some ''https://gitlab.com''\<rparr>"

definition user_a :: UserConfig where
  "user_a = \<lparr>accessToken = ''8443:glpat-abc'',
     gitlabUrl_opt = Some ''https://gitlab.example.com''\<rparr>"

definition user_b :: UserConfig where
  "user_b = \<lparr>accessToken = ''glpat-abc'',
     gitlabUrl_opt = Some ''https://gitlab.example.com:8443''\<rparr>"

definition user_plain :: UserConfig where
  "user_plain = \<lparr>accessToken = ''glpat-abc'',
     gitlabUrl_opt = Some ''https://gitlab.example.com''\<rparr>"

definition user_slash :: UserConfig where
  "user_slash = \<lparr>accessToken = ''glpat-abc'',
     gitlabUrl_opt = Some ''https://gitlab.example.com/''\<rparr>"

definition sample_schema :: GraphQLSchema where
  "sample_schema =
     \<lparr>getQueryType = Some [(''currentUser'', ''UserCore''), (''project'', ''Project'')],
      getMutationType = Some [(''createIssue'', ''CreateIssuePayload'')]\<rparr>"

definition lib_down :: "GraphQLSchema graphql_lib" where
  "lib_down =
     \<lparr>request = (\<lambda>n c q v. Inl \<lparr>name = ''TypeError'', message = ''fetch failed''\<rparr>),
      getIntrospectionQuery = ''query IntrospectionQuery { __schema { queryType { name } } }'',
      buildClientSchema = Inr\<rparr>"

definition lib_up :: "GraphQLSchema graphql_lib" where
  "lib_up =
     \<lparr>request = (\<lambda>n c q v. Inr sample_schema),
      getIntrospectionQuery = ''query IntrospectionQuery { __schema { queryType { name } } }'',
      buildClientSchema = Inr\<rparr>"

definition lib_flaky :: "GraphQLSchema graphql_lib" where
  "lib_flaky =
     \<lparr>request = (\<lambda>n c q v.
         if n = 0 then Inl \<lparr>name = ''TypeError'', message = ''fetch failed''\<rparr>
         else Inr sample_schema),
      getIntrospectionQuery = ''query IntrospectionQuery { __schema { queryType { name } } }'',
      buildClientSchema = Inr\<rparr>"

section \<open>What each method leaves unchanged\<close>

lemma getUserClient_fields:
  "config (snd (getUserClient s uc)) = config s"
  "baseClient (snd (getUserClient s uc)) = baseClient s"
  "schema (snd (getUserClient s uc)) = schema s"
  "requests (snd (getUserClient s uc)) = requests s"
  by (simp_all add: getUserClient_def createClient_def Let_def)

lemma getUserClient_cached:
  "map_of (userClients (snd (getUserClient s uc))) (userKey (config s) uc) = Some (fst (getUserClient s uc))"
  by (auto simp add: getUserClient_def createClient_def Let_def update_conv')

lemma getUserClient_fieldsD:
  assumes "getUserClient s uc = (c, s1)"
  shows "config s1 = config s" "baseClient s1 = baseClient s" "schema s1 = schema s"
    "requests s1 = requests s"
  using getUserClient_fields [of s uc] assms by simp_all

lemma getClient_fields:
  "config (snd (getClient s u w)) = config s"
  "baseClient (snd (getClient s u w)) = baseClient s"
  "schema (snd (getClient s u w)) = schema s"
  "requests (snd (getClient s u w)) = requests s"
  by (auto simp add: getClient_def split: option.splits prod.splits
      dest: getUserClient_fieldsD)

lemma client_request_fields:
  "config (snd (client_request lib s c q v)) = config s"
  "baseClient (snd (client_request lib s c q v)) = baseClient s"
  "schema (snd (client_request lib s c q v)) = schema s"
  "userClients (snd (client_request lib s c q v)) = userClients s"
  "heap (snd (client_request lib s c q v)) = heap s"
  by (simp_all add: client_request_def)

lemma getClient_fieldsD:
  assumes "getClient s u w = (r, s1)"
  shows "config s1 = config s" "baseClient s1 = baseClient s" "schema s1 = schema s"
    "requests s1 = requests s"
  using getClient_fields [of s u w] assms by simp_all

lemma query_fields:
  "config (snd (query lib s q v u w)) = config s"
  "baseClient (snd (query lib s q v u w)) = baseClient s"
  "schema (snd (query lib s q v u w)) = schema s"
  "userClients (snd (query lib s q v u w)) = userClients (snd (getClient s u w))"
  "heap (snd (query lib s q v u w)) = heap (snd (getClient s u w))"
  by (auto simp add: query_def client_request_def split: prod.splits sum.splits
      dest: getClient_fieldsD)

lemma introspectSchema_fields:
  "config (snd (introspectSchema lib s u)) = config s"
  "baseClient (snd (introspectSchema lib s u)) = baseClient s"
  "userClients (snd (introspectSchema lib s u)) =
     (if schema s \<noteq> None then userClients s else userClients (snd (getClient s u False)))"
  "heap (snd (introspectSchema lib s u)) =
     (if schema s \<noteq> None then heap s else heap (snd (getClient s u False)))"
  by (auto simp add: introspectSchema_def client_request_def split: prod.splits sum.splits
      dest: getClient_fieldsD)

section \<open>The client cache only grows\<close>

lemma getUserClient_hit:
  assumes "map_of (userClients s) (userKey (config s) uc) = Some c"
  shows "getUserClient s uc = (c, s)"
  using assms by (simp add: getUserClient_def Let_def)

lemma getUserClient_miss:
  assumes "map_of (userClients s) (userKey (config s) uc) = None"
  shows "getUserClient s uc =
    (length (heap s),
     s\<lparr>heap := heap s @
          [\<lparr>endpoint = strip_trailing_slash (effectiveUrl (config s) uc) @ ''/api/graphql'',
            headers = [(''Authorization'', ''Bearer '' @ accessToken uc),
                       (''Content-Type'', ''application/json'')]\<rparr>],
       userClients := AList.update (userKey (config s) uc) (length (heap s)) (userClients s)\<rparr>)"
  using assms by (simp add: getUserClient_def Let_def createClient_def update_conv')

lemma getUserClient_mono:
  assumes "map_of (userClients s) k = Some c"
  shows "map_of (userClients (snd (getUserClient s uc))) k = Some c"
proof (cases "map_of (userClients s) (userKey (config s) uc)")
  case None
  then have "k \<noteq> userKey (config s) uc" using assms by auto
  then show ?thesis using None assms by (simp add: getUserClient_miss update_conv')
next
  case (Some d)
  then show ?thesis using assms by (simp add: getUserClient_hit)
qed

lemma getUserClient_heap:
  "length (heap s) \<le> length (heap (snd (getUserClient s uc)))"
  "i < length (heap s) \<Longrightarrow> heap (snd (getUserClient s uc)) ! i = heap s ! i"
  by (cases "map_of (userClients s) (userKey (config s) uc)";
      simp add: getUserClient_miss getUserClient_hit nth_append)+

lemma getClient_cases:
  "getClient s (Some uc) w = (Inr (fst (getUserClient s uc)), snd (getUserClient s uc))"
  "snd (getClient s None w) = s"
  by (simp_all add: getClient_def split: prod.splits)

lemma exec_cache:
  "exec lib s cl = s \<or> (\<exists>uc. userClients (exec lib s cl) = userClients (snd (getUserClient s uc))
      \<and> heap (exec lib s cl) = heap (snd (getUserClient s uc)))
   \<or> (userClients (exec lib s cl) = userClients s \<and> heap (exec lib s cl) = heap s)"
proof (cases cl)
  case (GetUserClient uc) then show ?thesis by auto
next
  case (GetClient u w) then show ?thesis by (cases u) (auto simp: getClient_cases)
next
  case (IntrospectSchema u) then show ?thesis
    by (cases u) (auto simp: introspectSchema_fields getClient_cases)
next
  case (Query q v u w) then show ?thesis
    by (cases u) (auto simp: query_fields getClient_cases)
qed

lemma exec_fields:
  "config (exec lib s cl) = config s"
  "baseClient (exec lib s cl) = baseClient s"
  by (cases cl; simp add: getUserClient_fields getClient_fields introspectSchema_fields query_fields)+

lemma exec_mono:
  assumes "map_of (userClients s) k = Some c"
  shows "map_of (userClients (exec lib s cl)) k = Some c"
  using exec_cache [of lib s cl] assms getUserClient_mono [OF assms] by auto

lemma exec_heap:
  "length (heap s) \<le> length (heap (exec lib s cl))"
  "i < length (heap s) \<Longrightarrow> heap (exec lib s cl) ! i = heap s ! i"
  using exec_cache [of lib s cl] getUserClient_heap [where s = s] by auto

lemma run_fields:
  "config (run lib s cs) = config s"
  "baseClient (run lib s cs) = baseClient s"
  by (induction cs arbitrary: s; simp add: exec_fields)+

lemma run_mono:
  assumes "map_of (userClients s) k = Some c"
  shows "map_of (userClients (run lib s cs)) k = Some c"
  using assms by (induction cs arbitrary: s) (simp_all add: exec_mono)

lemma run_heap_aux:
  "length (heap s) \<le> length (heap (run lib s cs)) \<and>
   (\<forall>i<length (heap s). heap (run lib s cs) ! i = heap s ! i)"
proof (induction cs arbitrary: s)
  case Nil
  show ?case by simp
next
  case (Cons c cs)
  let ?t = "exec lib s c"
  have a: "length (heap s) \<le> length (heap ?t)" by (rule exec_heap)
  have b: "\<forall>i<length (heap s). heap ?t ! i = heap s ! i" by (simp add: exec_heap)
  from Cons.IH [of ?t] a b show ?case by auto
qed

lemma run_heap:
  "length (heap s) \<le> length (heap (run lib s cs))"
  "i < length (heap s) \<Longrightarrow> heap (run lib s cs) ! i = heap s ! i"
  using run_heap_aux [of s lib cs] by simp_all

section \<open>The invariant of the store\<close>

lemma update_fresh: "map_of al k = None \<Longrightarrow> AList.update k v al = al @ [(k, v)]"
  by (induction al) (auto split: if_splits)

lemma cache_ok_constructor: "cache_ok (constructor cfg)"
  by (simp add: cache_ok_def constructor_def createClient_def Let_def split: option.splits)

lemma cache_ok_getUserClient:
  assumes "cache_ok s"
  shows "cache_ok (snd (getUserClient s uc))"
proof (cases "map_of (userClients s) (userKey (config s) uc)")
  case None
  then show ?thesis using assms
    by (auto simp add: getUserClient_miss update_fresh cache_ok_def split: option.splits)
next
  case (Some c)
  then show ?thesis using assms by (simp add: getUserClient_hit)
qed

lemma cache_ok_cong:
  assumes "cache_ok s" "userClients t = userClients s" "heap t = heap s"
    "baseClient t = baseClient s"
  shows "cache_ok t"
  using assms by (simp add: cache_ok_def split: option.splits)

lemma cache_ok_exec:
  assumes "cache_ok s"
  shows "cache_ok (exec lib s cl)"
proof -
  from exec_cache [of lib s cl]
  consider "exec lib s cl = s"
    | uc where "userClients (exec lib s cl) = userClients (snd (getUserClient s uc))"
        "heap (exec lib s cl) = heap (snd (getUserClient s uc))"
    | "userClients (exec lib s cl) = userClients s" "heap (exec lib s cl) = heap s"
    by blast
  then show ?thesis
  proof cases
    case 1 then show ?thesis using assms by simp
  next
    case (2 uc)
    show ?thesis
      by (rule cache_ok_cong [OF cache_ok_getUserClient [OF assms, of uc]])
         (simp_all add: 2 exec_fields getUserClient_fields)
  next
    case 3
    show ?thesis by (rule cache_ok_cong [OF assms]) (simp_all add: 3 exec_fields)
  qed
qed

lemma cache_ok_run: "cache_ok s \<Longrightarrow> cache_ok (run lib s cs)"
  by (induction cs arbitrary: s) (simp_all add: cache_ok_exec)

lemma constructor_fields:
  "config (constructor cfg) = cfg"
  "schema (constructor cfg) = None"
  "userClients (constructor cfg) = []"
  "requests (constructor cfg) = []"
  "baseClient (constructor cfg) = (if truthy (sharedAccessToken cfg) then Some 0 else None)"
  by (simp_all add: constructor_def createClient_def Let_def truthy_def split: option.splits)

lemma constructor_heap:
  "truthy (sharedAccessToken cfg) \<Longrightarrow> heap (constructor cfg) =
     [\<lparr>endpoint = strip_trailing_slash (gitlabUrl cfg) @ ''/api/graphql'',
       headers = [(''Authorization'', ''Bearer '' @ the (sharedAccessToken cfg)),
                  (''Content-Type'', ''application/json'')]\<rparr>]"
  by (auto simp add: constructor_def createClient_def Let_def truthy_def split: option.splits)

lemma toString_Error: "toString (Error m) = (if m = [] then ''Error'' else ''Error: '' @ m)"
  by (simp add: toString_def Error_def)

section \<open>Constructions per identity\<close>

lemma userKey_identity:
  "userKey cfg uc = fst (credentialIdentity cfg uc) @ '':'' @ snd (credentialIdentity cfg uc)"
  by (simp add: userKey_def credentialIdentity_def)

lemma exec_cred:
  "exec lib s cl = s \<or>
   (userClients (exec lib s cl) = userClients s \<and> heap (exec lib s cl) = heap s) \<or>
   (\<exists>uc. cred_of cl = Some uc \<and>
      userClients (exec lib s cl) = userClients (snd (getUserClient s uc)) \<and>
      heap (exec lib s cl) = heap (snd (getUserClient s uc)))"
proof (cases cl)
  case (GetUserClient uc) then show ?thesis by auto
next
  case (GetClient u w) then show ?thesis by (cases u) (auto simp: getClient_cases)
next
  case (IntrospectSchema u) then show ?thesis
    by (cases u) (auto simp: introspectSchema_fields getClient_cases)
next
  case (Query q v u w) then show ?thesis
    by (cases u) (auto simp: query_fields getClient_cases)
qed

lemma getUserClient_grows:
  "length (heap (snd (getUserClient s uc))) =
     (if map_of (userClients s) (userKey (config s) uc) = None
      then Suc (length (heap s)) else length (heap s))"
  by (cases "map_of (userClients s) (userKey (config s) uc)")
     (auto simp add: getUserClient_miss getUserClient_hit)

lemma exec_constructs:
  assumes "map_option (credentialIdentity (config s)) (cred_of cl) = Some i"
  shows "length (heap (exec lib s cl)) - length (heap s) \<le> 1"
    and "map_of (userClients s) (fst i @ '':'' @ snd i) \<noteq> None \<Longrightarrow>
           length (heap (exec lib s cl)) - length (heap s) = 0"
    and "length (heap (exec lib s cl)) - length (heap s) = 1 \<Longrightarrow>
           map_of (userClients (exec lib s cl)) (fst i @ '':'' @ snd i) \<noteq> None"
proof -
  from assms obtain uc0 where uc0: "cred_of cl = Some uc0" "credentialIdentity (config s) uc0 = i"
    by auto
  then have key: "userKey (config s) uc0 = fst i @ '':'' @ snd i"
    by (simp add: userKey_identity)
  from exec_cred [of lib s cl] uc0
  consider "heap (exec lib s cl) = heap s"
    | "userClients (exec lib s cl) = userClients (snd (getUserClient s uc0))"
      "heap (exec lib s cl) = heap (snd (getUserClient s uc0))"
    by auto
  note cs = this
  show "length (heap (exec lib s cl)) - length (heap s) \<le> 1"
    using cs by cases (simp_all add: getUserClient_grows)
  show "map_of (userClients s) (fst i @ '':'' @ snd i) \<noteq> None \<Longrightarrow>
           length (heap (exec lib s cl)) - length (heap s) = 0"
    using cs by cases (simp_all add: getUserClient_grows key)
  show "length (heap (exec lib s cl)) - length (heap s) = 1 \<Longrightarrow>
           map_of (userClients (exec lib s cl)) (fst i @ '':'' @ snd i) \<noteq> None"
    using cs getUserClient_cached [of s uc0] by cases (simp_all add: key)
qed

lemma constructions_cached:
  assumes "map_of (userClients s) (fst i @ '':'' @ snd i) \<noteq> None"
  shows "constructions lib s cs i = 0"
  using assms
proof (induction cs arbitrary: s)
  case Nil show ?case by simp
next
  case (Cons c cs)
  from Cons.prems obtain r where "map_of (userClients s) (fst i @ '':'' @ snd i) = Some r" by auto
  then have "map_of (userClients (exec lib s c)) (fst i @ '':'' @ snd i) \<noteq> None"
    by (simp add: exec_mono)
  then have "constructions lib (exec lib s c) cs i = 0" by (rule Cons.IH)
  then show ?case using exec_constructs(2) [OF _ Cons.prems, of c lib] by simp
qed

lemma constructions_le_1: "constructions lib s cs i \<le> 1"
proof (induction cs arbitrary: s)
  case Nil show ?case by simp
next
  case (Cons c cs)
  show ?case
  proof (cases "map_option (credentialIdentity (config s)) (cred_of c) = Some i \<and>
                length (heap (exec lib s c)) - length (heap s) \<noteq> 0")
    case True
    then have "length (heap (exec lib s c)) - length (heap s) = 1"
      using exec_constructs(1) [of s c i lib] by linarith
    moreover from this True have "constructions lib (exec lib s c) cs i = 0"
      by (intro constructions_cached exec_constructs(3)) simp_all
    ultimately show ?thesis using True by simp
  next
    case False
    then show ?thesis using Cons.IH [of "exec lib s c"] by auto
  qed
qed

lemma cache_ok_ref:
  assumes "cache_ok s" "map_of (userClients s) k = Some c"
  shows "c < length (heap s)"
proof -
  from assms(2) have "c \<in> set (map snd (userClients s))" by (force dest: map_of_SomeD)
  with assms(1) show ?thesis by (auto simp add: cache_ok_def)
qed

lemma cache_ok_distinct:
  assumes "cache_ok s" "map_of (userClients s) k1 = Some c1" "map_of (userClients s) k2 = Some c2"
    "k1 \<noteq> k2"
  shows "c1 \<noteq> c2"
proof
  assume "c1 = c2"
  from assms(1) have "inj_on snd (set (userClients s))"
    by (simp add: cache_ok_def distinct_map)
  moreover have "(k1, c1) \<in> set (userClients s)" "(k2, c2) \<in> set (userClients s)"
    using assms(2,3) by (auto dest: map_of_SomeD)
  ultimately show False
    using \<open>c1 = c2\<close> \<open>k1 \<noteq> k2\<close> inj_onD [of snd "set (userClients s)" "(k1, c1)" "(k2, c2)"]
    by simp
qed

text \<open>
  Calls of \<open>getUserClient\<close> whose key strings are pairwise distinct and not cached yet
  add one cache entry each.
\<close>

lemma cache_growth_distinct_keys:
  assumes "distinct (map (userKey (config s)) ucs)"
    and "\<forall>uc \<in> set ucs. map_of (userClients s) (userKey (config s) uc) = None"
  shows "length (userClients (run lib s (map GetUserClient ucs))) =
           length (userClients s) + length ucs"
  using assms
proof (induction ucs arbitrary: s)
  case Nil
  show ?case by simp
next
  case (Cons uc ucs)
  let ?t = "snd (getUserClient s uc)"
  from Cons.prems(2) have miss: "map_of (userClients s) (userKey (config s) uc) = None" by simp
  have cfg: "config ?t = config s" by (simp add: getUserClient_fields)
  have ut: "userClients ?t = userClients s @ [(userKey (config s) uc, length (heap s))]"
    using miss by (simp add: getUserClient_miss update_fresh)
  have d: "distinct (map (userKey (config ?t)) ucs)" using Cons.prems(1) by (simp add: cfg)
  have f: "\<forall>v \<in> set ucs. map_of (userClients ?t) (userKey (config ?t) v) = None"
  proof
    fix v assume v: "v \<in> set ucs"
    from Cons.prems(1) have "userKey (config s) uc \<notin> userKey (config s) ` set ucs" by simp
    moreover from v have "userKey (config s) v \<in> userKey (config s) ` set ucs" by (rule imageI)
    ultimately have "userKey (config s) v \<noteq> userKey (config s) uc" by metis
    moreover from Cons.prems(2) v have "map_of (userClients s) (userKey (config s) v) = None"
      by simp
    ultimately show "map_of (userClients ?t) (userKey (config ?t) v) = None"
      by (simp add: cfg ut)
  qed
  from Cons.IH [OF d f] show ?case by (simp add: ut)
qed

section \<open>Introspection\<close>

lemma introspectSchema_stored:
  assumes "schema s \<noteq> None"
  shows "introspectSchema lib s u = (Inr (), s)"
  using assms by (simp add: introspectSchema_def)

lemma run_introspect_stored:
  assumes "schema s \<noteq> None"
  shows "run lib s (map IntrospectSchema us) = s"
  using assms by (induction us) (simp_all add: introspectSchema_stored)

lemma introspectSchema_success:
  assumes "schema s = None" "fst (introspectSchema lib s u) = Inr ()"
  shows "\<exists>c s1 r sch. getClient s u False = (Inr c, s1) \<and>
           request lib (length (requests s)) (heap s1 ! c) (getIntrospectionQuery lib) None = Inr r \<and>
           buildClientSchema lib r = Inr sch \<and>
           snd (introspectSchema lib s u) =
             s1\<lparr>requests := requests s @ [(c, getIntrospectionQuery lib)], schema := Some sch\<rparr>"
proof -
  obtain res s1 where g: "getClient s u False = (res, s1)" by (cases "getClient s u False")
  then have rq: "requests s1 = requests s" by (rule getClient_fieldsD)
  from assms g obtain c where c: "res = Inr c"
    by (cases res) (simp_all add: introspectSchema_def)
  show ?thesis
    using assms g c rq
    by (auto simp add: introspectSchema_def client_request_def split: sum.splits)
qed

lemma introspectSchema_failure:
  assumes "fst (introspectSchema lib s u) = Inl e"
  shows "schema s = None" and "schema (snd (introspectSchema lib s u)) = None"
    and "\<exists>cause. e = Error (''Failed to introspect GitLab GraphQL schema: '' @ toString cause)"
proof -
  show n: "schema s = None" using assms by (cases "schema s") (simp_all add: introspectSchema_def)
  obtain res s1 where g: "getClient s u False = (res, s1)" by (cases "getClient s u False")
  then have sc: "schema s1 = None" using n getClient_fieldsD(3) [OF g] by simp
  show "schema (snd (introspectSchema lib s u)) = None"
    using assms n g sc
    by (auto simp add: introspectSchema_def client_request_def split: sum.splits)
  show "\<exists>cause. e = Error (''Failed to introspect GitLab GraphQL schema: '' @ toString cause)"
    using assms n g
    by (auto simp add: introspectSchema_def client_request_def split: sum.splits)
qed


lemma strip_trailing_slash_cases:
  "u \<noteq> [] \<Longrightarrow> last u \<noteq> CHR ''/'' \<Longrightarrow> strip_trailing_slash u = u"
  "strip_trailing_slash (u @ ''/'') = u"
  by (simp_all add: strip_trailing_slash_def)

lemma introspectSchema_atomic:
  "introspectSchema lib s u =
     (case introspectSchema_start lib s u of
        (Returned r, s1) \<Rightarrow> (r, s1)
      | (Awaiting c n, s1) \<Rightarrow> introspectSchema_resume lib s1 c n)"
proof (cases "getClient s u False")
  case (Pair res s1)
  then show ?thesis
    by (cases res)
       (simp_all add: introspectSchema_def introspectSchema_start_def
          introspectSchema_resume_def client_request_def split: sum.splits)
qed

lemma introspectSchema_start_user:
  assumes "schema s = None"
  shows "requests (snd (introspectSchema_start lib s (Some uc))) =
           requests s @ [(fst (getUserClient s uc), getIntrospectionQuery lib)]"
    and "schema (snd (introspectSchema_start lib s (Some uc))) = None"
    and "\<exists>c. fst (introspectSchema_start lib s (Some uc)) = Awaiting c (length (requests s))"
  using assms
  by (simp_all add: introspectSchema_start_def getClient_cases getUserClient_fields)

lemma start_all_user_calls:
  assumes "schema s = None"
  shows "length (requests (snd (start_all lib s (map Some ucs)))) =
           length (requests s) + length ucs"
  using assms
proof (induction ucs arbitrary: s)
  case Nil
  show ?case by simp
next
  case (Cons uc ucs)
  let ?t = "snd (introspectSchema_start lib s (Some uc))"
  have "schema ?t = None" using Cons.prems by (rule introspectSchema_start_user)
  from Cons.IH [OF this] show ?case
    using introspectSchema_start_user(1) [OF Cons.prems, of lib uc]
    by (simp add: split_beta)
qed

lemma introspectSchema_resume_requests:
  "requests (snd (introspectSchema_resume lib s c n)) = requests s"
  by (simp add: introspectSchema_resume_def split: sum.splits)

lemma resume_all_requests: "requests (snd (resume_all lib s ps)) = requests s"
proof (induction ps arbitrary: s)
  case Nil
  show ?case by simp
next
  case (Cons p ps)
  show ?case
    by (cases p) (simp_all add: split_beta Cons.IH introspectSchema_resume_requests)
qed

section \<open>Precedence of a user credential\<close>

text \<open>
  With a user credential, \<open>getClient\<close> never throws and returns what \<open>getUserClient\<close>
  returns, whatever \<open>requiresWrite\<close>, the auth mode and the shared client are. The client
  is the one cached under the credential's key string; it is built from the credential's
  own endpoint and token when that key string was not cached before the call.
\<close>

lemma getClient_with_user_credential:
  "getClient s (Some uc) w = (Inr (fst (getUserClient s uc)), snd (getUserClient s uc)) \<and>
   fst (getClient (s\<lparr>baseClient := b, config := (config s)\<lparr>authMode := m\<rparr>\<rparr>) (Some uc) w')
     = fst (getClient s (Some uc) w) \<and>
   map_of (userClients (snd (getClient s (Some uc) w))) (userKey (config s) uc)
     = Some (fst (getUserClient s uc)) \<and>
   (map_of (userClients s) (userKey (config s) uc) = None \<longrightarrow>
      heap (snd (getClient s (Some uc) w)) ! fst (getUserClient s uc) =
        \<lparr>endpoint = strip_trailing_slash (effectiveUrl (config s) uc) @ ''/api/graphql'',
         headers = [(''Authorization'', ''Bearer '' @ accessToken uc),
                    (''Content-Type'', ''application/json'')]\<rparr>)"
proof (intro conjI impI)
  show a: "getClient s (Some uc) w = (Inr (fst (getUserClient s uc)), snd (getUserClient s uc))"
    by (rule getClient_cases)
  show "fst (getClient (s\<lparr>baseClient := b, config := (config s)\<lparr>authMode := m\<rparr>\<rparr>) (Some uc) w')
     = fst (getClient s (Some uc) w)"
    by (simp add: getClient_cases getUserClient_def createClient_def Let_def userKey_def
        effectiveUrl_def)
  show "map_of (userClients (snd (getClient s (Some uc) w))) (userKey (config s) uc)
     = Some (fst (getUserClient s uc))"
    by (simp add: a getUserClient_cached)
next
  assume "map_of (userClients s) (userKey (config s) uc) = None"
  then show "heap (snd (getClient s (Some uc) w)) ! fst (getUserClient s uc) =
        \<lparr>endpoint = strip_trailing_slash (effectiveUrl (config s) uc) @ ''/api/graphql'',
         headers = [(''Authorization'', ''Bearer '' @ accessToken uc),
                    (''Content-Type'', ''application/json'')]\<rparr>"
    by (simp add: getClient_cases getUserClient_miss)
qed

section \<open>The claims\<close>

text \<open>
  Claim C1. Whatever the auth mode and whether or not a shared client exists (the state
  \<open>s\<close> is arbitrary), \<open>getClient\<close> called for a write with no user credential throws,
  leaving the state as it was; the message of the error is the spec's reason
  "write operations require user authentication" with a capital first letter, followed
  by a hint to supply credentials. And in every state the process can reach from its
  constructor, a call of \<open>getClient\<close> with \<open>requiresWrite = true\<close> that returns a
  client was given a user credential, returns the client cached under that credential's
  key, and that client is not the shared \<open>baseClient\<close>.
\<close>

theorem write_never_uses_shared_client:
  "getClient s None True =
     (Inl (Error (''Write operations require user authentication. '' @
                  ''Please provide your GitLab credentials.'')), s) \<and>
   carries_reason (Error (''Write operations require user authentication. '' @
                          ''Please provide your GitLab credentials.''))
     ''write operations require user authentication'' \<and>
   (\<forall>c t. getClient (run lib (constructor cfg) calls) u True = (Inr c, t) \<longrightarrow>
      (\<exists>uc. u = Some uc \<and> map_of (userClients t) (userKey cfg uc) = Some c) \<and>
      baseClient t \<noteq> Some c \<and> baseClient (run lib (constructor cfg) calls) \<noteq> Some c)"
proof (intro conjI allI impI)
  show "getClient s None True =
     (Inl (Error (''Write operations require user authentication. '' @
                  ''Please provide your GitLab credentials.'')), s)"
    by (simp add: getClient_def)
  show "carries_reason (Error (''Write operations require user authentication. '' @
                          ''Please provide your GitLab credentials.''))
     ''write operations require user authentication''"
    by (simp add: carries_reason_def toLowerCase_def Error_def)
next
  fix c t
  let ?s = "run lib (constructor cfg) calls"
  assume g: "getClient ?s u True = (Inr c, t)"
  then obtain uc where u: "u = Some uc" by (cases u) (auto simp add: getClient_def)
  from g u have c: "c = fst (getUserClient ?s uc)" and t: "t = snd (getUserClient ?s uc)"
    by (simp_all add: getClient_cases)
  have cfg: "config ?s = cfg" by (simp add: run_fields constructor_fields)
  have hit: "map_of (userClients t) (userKey cfg uc) = Some c"
    using getUserClient_cached [of ?s uc] by (simp add: c t cfg)
  show "\<exists>uc. u = Some uc \<and> map_of (userClients t) (userKey cfg uc) = Some c"
    using u hit by blast
  have ok: "cache_ok t"
    unfolding t by (intro cache_ok_getUserClient cache_ok_run cache_ok_constructor)
  from hit have "c \<in> set (map snd (userClients t))"
    by (force dest: map_of_SomeD)
  with ok show "baseClient t \<noteq> Some c"
    by (force simp add: cache_ok_def)
  then show "baseClient ?s \<noteq> Some c"
    by (simp add: t getUserClient_fields)
qed

theorem write_never_uses_shared_client_witness:
  "getClient (run lib_down (constructor cfg_hybrid) [Query ''{ currentUser { id } }'' None None False])
     (Some user_abc) True =
     (Inr 1, (run lib_down (constructor cfg_hybrid) [Query ''{ currentUser { id } }'' None None False])
        \<lparr>userClients := [(''https://gitlab.com:abc'', 1)],
         heap := [\<lparr>endpoint = ''https://gitlab.com/api/graphql'',
                    headers = [(''Authorization'', ''Bearer glpat-shared''),
                               (''Content-Type'', ''application/json'')]\<rparr>,
                  \<lparr>endpoint = ''https://gitlab.com/api/graphql'',
                    headers = [(''Authorization'', ''Bearer abc''),
                               (''Content-Type'', ''application/json'')]\<rparr>]\<rparr>) \<and>
   baseClient (run lib_down (constructor cfg_hybrid) [Query ''{ currentUser { id } }'' None None False])
     = Some 0"
  using write_never_uses_shared_client
    [of "constructor cfg_hybrid" lib_down cfg_hybrid
        "[Query ''{ currentUser { id } }'' None None False]" "Some user_abc"]
  by (simp add: getClient_def getUserClient_def createClient_def constructor_def query_def
      client_request_def cfg_hybrid_def user_abc_def lib_down_def userKey_def effectiveUrl_def
      or_else_def Let_def strip_trailing_slash_def Error_def toString_def)

text \<open>
  Claim C2 at the input where the code departs from it. With a user credential,
  \<open>getClient\<close> does go to \<open>getUserClient\<close> whatever the other inputs are
  (\<open>getClient_with_user_credential\<close>), but the client it gets is the one cached under the
  key string \<^verbatim>\<open>`${url}:${token}`\<close>, and that need not be the client of the credential
  supplied. After a call with the credential (https://gitlab.example.com, 8443:glpat-abc),
  a write with the credential (https://gitlab.example.com:8443, glpat-abc) is given the
  first caller's client: its endpoint is the first caller's, without the port, and its
  token is the first caller's. On the state the constructor leaves, the same call gets a
  client with the endpoint and the token of the credential supplied. This is the defect of
  claim C6.
\<close>

theorem user_credential_resolved_to_colliding_client:
  "fst (getClient (run lib_down (constructor cfg_hybrid) [GetClient (Some user_a) False])
          (Some user_b) True) = Inr 1 \<and>
   heap (snd (getClient (run lib_down (constructor cfg_hybrid) [GetClient (Some user_a) False])
          (Some user_b) True)) ! 1 =
     \<lparr>endpoint = ''https://gitlab.example.com/api/graphql'',
      headers = [(''Authorization'', ''Bearer 8443:glpat-abc''),
                 (''Content-Type'', ''application/json'')]\<rparr> \<and>
   fst (getClient (constructor cfg_hybrid) (Some user_b) True) = Inr 1 \<and>
   heap (snd (getClient (constructor cfg_hybrid) (Some user_b) True)) ! 1 =
     \<lparr>endpoint = ''https://gitlab.example.com:8443/api/graphql'',
      headers = [(''Authorization'', ''Bearer glpat-abc''),
                 (''Content-Type'', ''application/json'')]\<rparr>"
  by (simp add: getClient_def getUserClient_def createClient_def constructor_def cfg_hybrid_def
      user_a_def user_b_def userKey_def effectiveUrl_def or_else_def Let_def
      strip_trailing_slash_def)

text \<open>
  Claim C3. In every state the process reaches from its constructor, \<open>getClient\<close> for a
  read with no user credential returns the shared client (reference 0, built by the
  constructor from the configured endpoint and the shared token) when a shared token is
  configured and the mode is not per-user; otherwise, in the modes per-user and hybrid it
  throws "This operation requires user authentication. ..."; otherwise it throws
  "No authentication configured. ...". The state is unchanged in all three cases. Each
  message is the spec's reason with a capital first letter, followed by a hint. The five
  instances that the claim lists are evaluated in the witness.
\<close>

theorem read_without_user_credential:
  "getClient (run lib (constructor cfg) calls) None False =
     (if truthy (sharedAccessToken cfg) \<and> authMode cfg \<noteq> PerUser then Inr 0
      else if authMode cfg = PerUser \<or> authMode cfg = Hybrid then
        Inl (Error (''This operation requires user authentication. '' @
                    ''Please provide your GitLab credentials.''))
      else
        Inl (Error (''No authentication configured. Please provide GitLab '' @
                    ''credentials or configure a shared access token.'')),
      run lib (constructor cfg) calls) \<and>
   (truthy (sharedAccessToken cfg) \<longrightarrow>
      baseClient (run lib (constructor cfg) calls) = Some 0 \<and>
      heap (run lib (constructor cfg) calls) ! 0 =
        \<lparr>endpoint = strip_trailing_slash (gitlabUrl cfg) @ ''/api/graphql'',
         headers = [(''Authorization'', ''Bearer '' @ the (sharedAccessToken cfg)),
                    (''Content-Type'', ''application/json'')]\<rparr>) \<and>
   carries_reason (Error (''This operation requires user authentication. '' @
                          ''Please provide your GitLab credentials.''))
     ''this operation requires user authentication'' \<and>
   carries_reason (Error (''No authentication configured. Please provide GitLab '' @
                          ''credentials or configure a shared access token.''))
     ''no authentication configured''"
proof -
  let ?s = "run lib (constructor cfg) calls"
  have cfg: "config ?s = cfg" by (simp add: run_fields constructor_fields)
  have base: "baseClient ?s = (if truthy (sharedAccessToken cfg) then Some 0 else None)"
    by (simp add: run_fields constructor_fields)
  have h: "truthy (sharedAccessToken cfg) \<Longrightarrow> heap ?s ! 0 =
        \<lparr>endpoint = strip_trailing_slash (gitlabUrl cfg) @ ''/api/graphql'',
         headers = [(''Authorization'', ''Bearer '' @ the (sharedAccessToken cfg)),
                    (''Content-Type'', ''application/json'')]\<rparr>"
    by (simp add: run_heap constructor_heap)
  show ?thesis
    using h by (simp add: getClient_def cfg base carries_reason_def toLowerCase_def Error_def)
qed

theorem read_without_user_credential_witness:
  "fst (getClient (constructor (cfg_of Hybrid (Some ''glpat-shared''))) None False) = Inr 0 \<and>
   truthy (sharedAccessToken (cfg_of Hybrid (Some ''glpat-shared''))) \<and>
   heap (constructor (cfg_of Hybrid (Some ''glpat-shared''))) ! 0 =
     \<lparr>endpoint = ''https://gitlab.com/api/graphql'',
      headers = [(''Authorization'', ''Bearer glpat-shared''),
                 (''Content-Type'', ''application/json'')]\<rparr> \<and>
   fst (getClient (constructor (cfg_of Hybrid None)) None False) =
     Inl (Error ''This operation requires user authentication. Please provide your GitLab credentials.'') \<and>
   fst (getClient (constructor (cfg_of PerUser (Some ''glpat-shared''))) None False) =
     Inl (Error ''This operation requires user authentication. Please provide your GitLab credentials.'') \<and>
   fst (getClient (constructor (cfg_of Shared (Some ''glpat-shared''))) None False) = Inr 0 \<and>
   fst (getClient (constructor (cfg_of Shared None)) None False) =
     Inl (Error ''No authentication configured. Please provide GitLab credentials or configure a shared access token.'')"
  using read_without_user_credential [of lib_down "cfg_of Hybrid (Some ''glpat-shared'')" "[]"]
    read_without_user_credential [of lib_down "cfg_of Hybrid None" "[]"]
    read_without_user_credential [of lib_down "cfg_of PerUser (Some ''glpat-shared'')" "[]"]
    read_without_user_credential [of lib_down "cfg_of Shared (Some ''glpat-shared'')" "[]"]
    read_without_user_credential [of lib_down "cfg_of Shared None" "[]"]
  by (simp add: cfg_of_def truthy_def strip_trailing_slash_def)

text \<open>
  Claim C4 fails on the code: the class has no error kinds. \<open>query\<close> runs both
  \<open>getClient\<close> and the exchange inside one \<^verbatim>\<open>try\<close> block and rethrows whatever it
  catches as \<^verbatim>\<open>new Error(`GraphQL query failed: ${error}`)\<close>. With mode hybrid and a
  shared token, a write with no user credential and a read whose exchange fails both raise
  an object of the one kind \<open>Error\<close>, and the message of the first is not the policy's
  reason but that reason behind the prefixes "GraphQL query failed: " and "Error: ".
\<close>

theorem query_auth_rejection_not_typed:
  "fst (query lib_down (constructor cfg_hybrid) ''mutation { x }'' None None True) =
     Inl \<lparr>name = ''Error'', message = ''GraphQL query failed: Error: Write operations require user authentication. Please provide your GitLab credentials.''\<rparr> \<and>
   fst (query lib_down (constructor cfg_hybrid) ''query { x }'' None None False) =
     Inl \<lparr>name = ''Error'', message = ''GraphQL query failed: TypeError: fetch failed''\<rparr> \<and>
   map_sum name id (fst (query lib_down (constructor cfg_hybrid) ''mutation { x }'' None None True)) =
   map_sum name id (fst (query lib_down (constructor cfg_hybrid) ''query { x }'' None None False))"
  by (simp add: query_def getClient_def client_request_def constructor_def createClient_def
      cfg_hybrid_def lib_down_def Let_def toString_def Error_def)

text \<open>
  Claim C4 as amended. Every failure of \<open>query\<close> is raised as a plain \<open>Error\<close> whose
  message is "GraphQL query failed: " followed by the rendering of what was caught:
  when \<open>getClient\<close> rejects, no exchange is issued and the state is unchanged; when the
  exchange of an authorized call throws, the exchange is logged. The two are told apart by
  the text of the message only. For a write with no user credential, in every state (so
  with mode hybrid and a shared token too), the message is "GraphQL query failed: Error:
  Write operations require user authentication. Please provide your GitLab credentials.".
\<close>

theorem query_wraps_every_failure:
  "(\<forall>e s1. getClient s u w = (Inl e, s1) \<longrightarrow>
      query lib s q vars u w = (Inl (Error (''GraphQL query failed: '' @ toString e)), s)) \<and>
   (\<forall>c s1 e. getClient s u w = (Inr c, s1) \<and>
        request lib (length (requests s1)) (heap s1 ! c) q vars = Inl e \<longrightarrow>
      query lib s q vars u w =
        (Inl (Error (''GraphQL query failed: '' @ toString e)),
         s1\<lparr>requests := requests s1 @ [(c, q)]\<rparr>)) \<and>
   (\<forall>e t. query lib s q vars u w = (Inl e, t) \<longrightarrow>
      name e = ''Error'' \<and> take 22 (message e) = ''GraphQL query failed: '') \<and>
   query lib s q vars None True =
     (Inl (Error (''GraphQL query failed: Error: Write operations require user '' @
                  ''authentication. Please provide your GitLab credentials.'')), s)"
proof (intro conjI allI impI)
  fix e s1 assume g: "getClient s u w = (Inl e, s1)"
  then have "u = None" by (cases u) (simp_all add: getClient_cases)
  with g have "s1 = s" using getClient_cases(2) [of s w] by simp
  with g show "query lib s q vars u w = (Inl (Error (''GraphQL query failed: '' @ toString e)), s)"
    by (simp add: query_def)
next
  fix c s1 e
  assume "getClient s u w = (Inr c, s1) \<and>
        request lib (length (requests s1)) (heap s1 ! c) q vars = Inl e"
  then show "query lib s q vars u w =
        (Inl (Error (''GraphQL query failed: '' @ toString e)),
         s1\<lparr>requests := requests s1 @ [(c, q)]\<rparr>)"
    by (simp add: query_def client_request_def)
next
  fix e t assume a: "query lib s q vars u w = (Inl e, t)"
  then have "\<exists>m. e = Error (''GraphQL query failed: '' @ m)"
    by (auto simp add: query_def split: prod.splits sum.splits)
  then show "name e = ''Error''" and "take 22 (message e) = ''GraphQL query failed: ''"
    by (auto simp add: Error_def)
next
  show "query lib s q vars None True =
     (Inl (Error (''GraphQL query failed: Error: Write operations require user '' @
                  ''authentication. Please provide your GitLab credentials.'')), s)"
    by (simp add: query_def getClient_def toString_Error)
qed

theorem query_wraps_every_failure_witness:
  "getClient (constructor cfg_hybrid) None True =
     (Inl (Error ''Write operations require user authentication. Please provide your GitLab credentials.''),
      constructor cfg_hybrid) \<and>
   query lib_down (constructor cfg_hybrid) ''mutation { x }'' None None True =
     (Inl (Error ''GraphQL query failed: Error: Write operations require user authentication. Please provide your GitLab credentials.''),
      constructor cfg_hybrid) \<and>
   getClient (constructor cfg_hybrid) None False = (Inr 0, constructor cfg_hybrid) \<and>
   request lib_down (length (requests (constructor cfg_hybrid))) (heap (constructor cfg_hybrid) ! 0)
     ''query { x }'' None = Inl \<lparr>name = ''TypeError'', message = ''fetch failed''\<rparr> \<and>
   query lib_down (constructor cfg_hybrid) ''query { x }'' None None False =
     (Inl (Error ''GraphQL query failed: TypeError: fetch failed''),
      (constructor cfg_hybrid)\<lparr>requests := [(0, ''query { x }'')]\<rparr>)"
  using query_wraps_every_failure
      [where s = "constructor cfg_hybrid" and u = None and w = True and lib = lib_down
         and q = "''mutation { x }''" and vars = None]
    query_wraps_every_failure
      [where s = "constructor cfg_hybrid" and u = None and w = False and lib = lib_down
         and q = "''query { x }''" and vars = None]
  by (simp add: getClient_def constructor_def createClient_def cfg_hybrid_def lib_down_def
      Let_def toString_def Error_def)

text \<open>
  Claim C5. Two credentials with the same identity (equal effective endpoint, which is
  the override when it is present and non-empty and the configured endpoint otherwise,
  and equal token) get the same client instance from \<open>getUserClient\<close>: after a first
  call on any state the process reaches from its constructor, and any calls in between,
  the second call returns the very reference of the first and changes nothing, and the
  object behind the reference is the one the first call saw. Over any sequence of calls
  from the constructor on, the calls that carry a credential of that identity construct
  at most one client (the shared client, which the constructor builds, belongs to no
  identity).
\<close>

theorem getUserClient_idempotent_per_identity:
  assumes "credentialIdentity cfg uc1 = credentialIdentity cfg uc2"
    and "getUserClient (run lib (constructor cfg) before) uc1 = (c1, s1)"
  shows "getUserClient (run lib s1 between) uc2 = (c1, run lib s1 between) \<and>
         c1 < length (heap s1) \<and> heap (run lib s1 between) ! c1 = heap s1 ! c1 \<and>
         constructions lib (constructor cfg) calls (credentialIdentity cfg uc1) \<le> 1"
proof -
  let ?s = "run lib (constructor cfg) before"
  have cfg: "config ?s = cfg" by (simp add: run_fields constructor_fields)
  from assms(2) have c1: "c1 = fst (getUserClient ?s uc1)" and s1: "s1 = snd (getUserClient ?s uc1)"
    by simp_all
  have cfg1: "config s1 = cfg" by (simp add: s1 getUserClient_fields cfg)
  have hit1: "map_of (userClients s1) (userKey cfg uc1) = Some c1"
    using getUserClient_cached [of ?s uc1] by (simp add: c1 s1 cfg)
  have ok1: "cache_ok s1"
    unfolding s1 by (intro cache_ok_getUserClient cache_ok_run cache_ok_constructor)
  have lt: "c1 < length (heap s1)" using ok1 hit1 by (rule cache_ok_ref)
  have key: "userKey cfg uc2 = userKey cfg uc1"
    using assms(1) by (simp add: userKey_identity)
  have "map_of (userClients (run lib s1 between)) (userKey cfg uc2) = Some c1"
    using hit1 by (simp add: key run_mono)
  then have "getUserClient (run lib s1 between) uc2 = (c1, run lib s1 between)"
    by (intro getUserClient_hit) (simp add: run_fields cfg1)
  moreover have "heap (run lib s1 between) ! c1 = heap s1 ! c1"
    using lt by (rule run_heap)
  ultimately show ?thesis
    using lt constructions_le_1 [of lib "constructor cfg" calls "credentialIdentity cfg uc1"]
    by simp
qed

theorem getUserClient_idempotent_per_identity_witness:
  "credentialIdentity cfg_hybrid user_T = credentialIdentity cfg_hybrid user_T_explicit \<and>
   user_T \<noteq> user_T_explicit \<and>
   fst (getUserClient (run lib_down (constructor cfg_hybrid) []) user_T) = 1 \<and>
   fst (getUserClient
          (run lib_down (snd (getUserClient (run lib_down (constructor cfg_hybrid) []) user_T))
             [GetUserClient user_abc]) user_T_explicit) = 1 \<and>
   fst (getUserClient
          (run lib_down (snd (getUserClient (run lib_down (constructor cfg_hybrid) []) user_T))
             [GetUserClient user_abc]) user_T) = 1 \<and>
   constructions lib_down (constructor cfg_hybrid)
     [GetUserClient user_T, GetUserClient user_abc, GetUserClient user_T_explicit, GetUserClient user_T]
     (credentialIdentity cfg_hybrid user_T) = 1"
proof -
  have i: "credentialIdentity cfg_hybrid user_T = credentialIdentity cfg_hybrid user_T_explicit"
    by (simp add: credentialIdentity_def effectiveUrl_def or_else_def cfg_hybrid_def user_T_def
        user_T_explicit_def)
  have g1: "fst (getUserClient (run lib_down (constructor cfg_hybrid) []) user_T) = 1"
    by (simp add: getUserClient_def createClient_def constructor_def cfg_hybrid_def user_T_def
        userKey_def effectiveUrl_def or_else_def Let_def)
  then have g: "getUserClient (run lib_down (constructor cfg_hybrid) []) user_T =
    (1, snd (getUserClient (run lib_down (constructor cfg_hybrid) []) user_T))"
    by (simp add: prod_eq_iff)
  have n: "user_T \<noteq> user_T_explicit" by (simp add: user_T_def user_T_explicit_def)
  have c: "constructions lib_down (constructor cfg_hybrid)
     [GetUserClient user_T, GetUserClient user_abc, GetUserClient user_T_explicit, GetUserClient user_T]
     (credentialIdentity cfg_hybrid user_T) = 1"
    by (simp add: getUserClient_def createClient_def constructor_def cfg_hybrid_def user_T_def
        user_T_explicit_def user_abc_def credentialIdentity_def
        userKey_def effectiveUrl_def or_else_def Let_def)
  note th = getUserClient_idempotent_per_identity [OF i g, of "[GetUserClient user_abc]"
      "[GetUserClient user_T, GetUserClient user_abc, GetUserClient user_T_explicit, GetUserClient user_T]"]
  note th' = getUserClient_idempotent_per_identity [OF refl g, of "[GetUserClient user_abc]" "[]"]
  show ?thesis
  proof (intro conjI)
    show "fst (getUserClient (run lib_down (constructor cfg_hybrid) []) user_T) = 1"
      by (rule g1)
    show "fst (getUserClient
          (run lib_down (snd (getUserClient (run lib_down (constructor cfg_hybrid) []) user_T))
             [GetUserClient user_abc]) user_T_explicit) = 1"
      using th by simp
    show "fst (getUserClient
          (run lib_down (snd (getUserClient (run lib_down (constructor cfg_hybrid) []) user_T))
             [GetUserClient user_abc]) user_T) = 1"
      using th' by simp
  qed (rule i n c)+
qed

text \<open>
  Claim C6 at the input where the code departs from it. The cache is keyed by the string
  \<^verbatim>\<open>`${url}:${token}`\<close>, and a URL may itself contain a colon: the credentials
  (https://gitlab.example.com, 8443:glpat-abc) and (https://gitlab.example.com:8443,
  glpat-abc) are two distinct identities with one key. After one call with each, the cache
  holds one user client, not two; the second caller is handed the first caller's client,
  which sends the first caller's token to the first caller's endpoint.
\<close>

theorem colliding_identities_share_one_handle:
  "credentialIdentity cfg_hybrid user_a \<noteq> credentialIdentity cfg_hybrid user_b \<and>
   fst (getUserClient (constructor cfg_hybrid) user_a) = 1 \<and>
   fst (getUserClient (snd (getUserClient (constructor cfg_hybrid) user_a)) user_b) = 1 \<and>
   userClients (run lib_down (constructor cfg_hybrid) [GetUserClient user_a, GetUserClient user_b])
     = [(''https://gitlab.example.com:8443:glpat-abc'', 1)] \<and>
   heap (run lib_down (constructor cfg_hybrid) [GetUserClient user_a, GetUserClient user_b]) ! 1
     = \<lparr>endpoint = ''https://gitlab.example.com/api/graphql'',
        headers = [(''Authorization'', ''Bearer 8443:glpat-abc''),
                   (''Content-Type'', ''application/json'')]\<rparr>"
  by (simp add: getUserClient_def createClient_def constructor_def cfg_hybrid_def user_a_def
      user_b_def credentialIdentity_def userKey_def effectiveUrl_def or_else_def Let_def
      strip_trailing_slash_def)

text \<open>
  Claim C7 fails on the code in two ways. First, when a snapshot is already stored before
  the first call with a credential: the class keeps one snapshot for all credentials, and
  \<open>introspectSchema\<close> returns at once when it is set. After the introspection at startup
  with the shared token (one exchange, by the shared client), three calls with the user
  credential abc all succeed and issue no exchange at all (the log still holds the one
  exchange of the startup), and no client is resolved for that credential. Second, when
  the calls overlap: \<open>schema\<close> is tested before the await and assigned after it, so three
  calls with the credential abc that are started before any exchange is answered all
  succeed and issue three exchanges.
\<close>

theorem introspectSchema_first_call_without_exchange:
  "schema (run lib_up (constructor cfg_hybrid) [IntrospectSchema None]) = Some sample_schema \<and>
   fst (introspectSchema lib_up (run lib_up (constructor cfg_hybrid) [IntrospectSchema None])
          (Some user_abc)) = Inr () \<and>
   requests (run lib_up (constructor cfg_hybrid) [IntrospectSchema None]) =
     [(0, ''query IntrospectionQuery { __schema { queryType { name } } }'')] \<and>
   requests (run lib_up (constructor cfg_hybrid)
       [IntrospectSchema None, IntrospectSchema (Some user_abc),
        IntrospectSchema (Some user_abc), IntrospectSchema (Some user_abc)]) =
     [(0, ''query IntrospectionQuery { __schema { queryType { name } } }'')] \<and>
   userClients (run lib_up (constructor cfg_hybrid)
       [IntrospectSchema None, IntrospectSchema (Some user_abc),
        IntrospectSchema (Some user_abc), IntrospectSchema (Some user_abc)]) = [] \<and>
   fst (start_all lib_up (constructor cfg_hybrid) [Some user_abc, Some user_abc, Some user_abc]) =
     [Awaiting 1 0, Awaiting 1 1, Awaiting 1 2] \<and>
   fst (resume_all lib_up
          (snd (start_all lib_up (constructor cfg_hybrid)
                  [Some user_abc, Some user_abc, Some user_abc]))
          [Awaiting 1 0, Awaiting 1 1, Awaiting 1 2]) = [Inr (), Inr (), Inr ()] \<and>
   requests (snd (resume_all lib_up
          (snd (start_all lib_up (constructor cfg_hybrid)
                  [Some user_abc, Some user_abc, Some user_abc]))
          [Awaiting 1 0, Awaiting 1 1, Awaiting 1 2])) =
     [(1, ''query IntrospectionQuery { __schema { queryType { name } } }''),
      (1, ''query IntrospectionQuery { __schema { queryType { name } } }''),
      (1, ''query IntrospectionQuery { __schema { queryType { name } } }'')]"
  by (simp add: introspectSchema_def introspectSchema_start_def introspectSchema_resume_def
      getClient_def getUserClient_def client_request_def constructor_def
      createClient_def cfg_hybrid_def user_abc_def lib_up_def Let_def userKey_def
      effectiveUrl_def or_else_def)


text \<open>
  Claim C7 as amended, for calls each awaited to its end before the next is started (such
  a call is the part before the await followed at once by the part after it, which is the
  first conjunct). When no snapshot is stored before the first call and the first call
  succeeds, the calls together issue exactly one exchange: the first call resolves its
  client with \<open>getClient\<close> as a read (\<open>requiresWrite = false\<close>), sends the introspection
  query through it and stores the snapshot, and every later call (with the same or any
  other credential \<open>us\<close>) returns successfully and leaves the state, the log of exchanges
  included, as the first call left it. When a snapshot is already stored before the first
  call, every call succeeds and none issues an exchange.
\<close>

theorem introspectSchema_memoizes:
  "introspectSchema lib s u =
     (case introspectSchema_start lib s u of
        (Returned r, s1) \<Rightarrow> (r, s1)
      | (Awaiting c n, s1) \<Rightarrow> introspectSchema_resume lib s1 c n) \<and>
   (schema s = None \<and> fst (introspectSchema lib s u) = Inr () \<longrightarrow>
      (\<exists>c. fst (getClient s u False) = Inr c \<and>
           requests (run lib s (map IntrospectSchema (u # us))) =
             requests s @ [(c, getIntrospectionQuery lib)]) \<and>
      schema (snd (introspectSchema lib s u)) \<noteq> None \<and>
      run lib s (map IntrospectSchema (u # us)) = snd (introspectSchema lib s u) \<and>
      schema (run lib s (map IntrospectSchema (u # us))) = schema (snd (introspectSchema lib s u))) \<and>
   (schema s \<noteq> None \<longrightarrow>
      fst (introspectSchema lib s u) = Inr () \<and>
      run lib s (map IntrospectSchema (u # us)) = s)"
proof (intro conjI impI)
  show "introspectSchema lib s u =
     (case introspectSchema_start lib s u of
        (Returned r, s1) \<Rightarrow> (r, s1)
      | (Awaiting c n, s1) \<Rightarrow> introspectSchema_resume lib s1 c n)"
    by (rule introspectSchema_atomic)
next
  assume a: "schema s = None \<and> fst (introspectSchema lib s u) = Inr ()"
  then obtain c s1 sch where g: "getClient s u False = (Inr c, s1)"
    and s': "snd (introspectSchema lib s u) =
             s1\<lparr>requests := requests s @ [(c, getIntrospectionQuery lib)], schema := Some sch\<rparr>"
    using introspectSchema_success [of s lib u] by blast
  show st: "schema (snd (introspectSchema lib s u)) \<noteq> None" by (simp add: s')
  then show r: "run lib s (map IntrospectSchema (u # us)) = snd (introspectSchema lib s u)"
    by (simp add: run_introspect_stored)
  show "\<exists>c. fst (getClient s u False) = Inr c \<and>
           requests (run lib s (map IntrospectSchema (u # us))) =
             requests s @ [(c, getIntrospectionQuery lib)]"
    unfolding r by (simp add: g s')
  show "schema (run lib s (map IntrospectSchema (u # us))) = schema (snd (introspectSchema lib s u))"
    unfolding r by simp
next
  assume b: "schema s \<noteq> None"
  then show "fst (introspectSchema lib s u) = Inr ()" by (simp add: introspectSchema_stored)
  from b show "run lib s (map IntrospectSchema (u # us)) = s"
    by (rule run_introspect_stored)
qed

theorem introspectSchema_memoizes_witness:
  "schema (constructor cfg_hybrid) = None \<and>
   fst (introspectSchema lib_up (constructor cfg_hybrid) (Some user_abc)) = Inr () \<and>
   fst (getClient (constructor cfg_hybrid) (Some user_abc) False) = Inr 1 \<and>
   requests (run lib_up (constructor cfg_hybrid)
      (map IntrospectSchema [Some user_abc, Some user_abc, Some user_abc])) =
     [(1, ''query IntrospectionQuery { __schema { queryType { name } } }'')] \<and>
   schema (run lib_up (constructor cfg_hybrid)
      (map IntrospectSchema [Some user_abc, Some user_abc, Some user_abc])) = Some sample_schema \<and>
   schema (run lib_up (constructor cfg_hybrid) [IntrospectSchema None]) \<noteq> None \<and>
   run lib_up (run lib_up (constructor cfg_hybrid) [IntrospectSchema None])
      (map IntrospectSchema [Some user_abc, Some user_abc, Some user_abc]) =
     run lib_up (constructor cfg_hybrid) [IntrospectSchema None]"
  using introspectSchema_memoizes
      [where s = "constructor cfg_hybrid" and lib = lib_up and u = "Some user_abc"
         and us = "[Some user_abc, Some user_abc]", THEN conjunct2]
    introspectSchema_memoizes
      [where s = "run lib_up (constructor cfg_hybrid) [IntrospectSchema None]" and lib = lib_up
         and u = "Some user_abc" and us = "[Some user_abc, Some user_abc]", THEN conjunct2]
  by (simp add: introspectSchema_def getClient_def getUserClient_def client_request_def
      constructor_def createClient_def cfg_hybrid_def user_abc_def lib_up_def userKey_def
      effectiveUrl_def or_else_def Let_def)

text \<open>
  Claim C8. When the exchange of an introspection throws, \<open>introspectSchema\<close> throws an
  \<open>Error\<close> whose message is "Failed to introspect GitLab GraphQL schema: " followed by
  the rendering of the cause. Whenever \<open>introspectSchema\<close> throws (the client could not
  be resolved, the exchange failed, or the answer did not build a schema), no snapshot
  was stored before the call and none is stored after it. A later call from the resulting
  state, with any credential \<open>u'\<close> (the same or another) for which \<open>getClient\<close>
  resolves a client, succeeds and stores the snapshot as soon as the exchange answers and
  the answer builds a schema.
\<close>

theorem failed_introspection_leaves_cache_empty:
  "(\<forall>c s1 cause.
      schema s = None \<and> getClient s u False = (Inr c, s1) \<and>
      request lib (length (requests s1)) (heap s1 ! c) (getIntrospectionQuery lib) None
        = Inl cause \<longrightarrow>
      introspectSchema lib s u =
        (Inl (Error (''Failed to introspect GitLab GraphQL schema: '' @ toString cause)),
         s1\<lparr>requests := requests s1 @ [(c, getIntrospectionQuery lib)]\<rparr>)) \<and>
   (\<forall>e. fst (introspectSchema lib s u) = Inl e \<longrightarrow>
      schema s = None \<and> schema (snd (introspectSchema lib s u)) = None \<and>
      name e = ''Error'' \<and>
      take 44 (message e) = ''Failed to introspect GitLab GraphQL schema: '' \<and>
      (\<forall>u' c s2 r sch.
         getClient (snd (introspectSchema lib s u)) u' False = (Inr c, s2) \<and>
         request lib (length (requests s2)) (heap s2 ! c) (getIntrospectionQuery lib) None
           = Inr r \<and>
         buildClientSchema lib r = Inr sch \<longrightarrow>
         introspectSchema lib (snd (introspectSchema lib s u)) u' =
           (Inr (), s2\<lparr>requests := requests s2 @ [(c, getIntrospectionQuery lib)],
                      schema := Some sch\<rparr>)))"
proof (intro conjI allI impI)
  fix c s1 cause
  assume "schema s = None \<and> getClient s u False = (Inr c, s1) \<and>
      request lib (length (requests s1)) (heap s1 ! c) (getIntrospectionQuery lib) None
        = Inl cause"
  then show "introspectSchema lib s u =
        (Inl (Error (''Failed to introspect GitLab GraphQL schema: '' @ toString cause)),
         s1\<lparr>requests := requests s1 @ [(c, getIntrospectionQuery lib)]\<rparr>)"
    by (simp add: introspectSchema_def client_request_def)
next
  fix e
  assume a: "fst (introspectSchema lib s u) = Inl e"
  note f = introspectSchema_failure [OF a]
  show "schema s = None" by (rule f(1))
  show "schema (snd (introspectSchema lib s u)) = None" by (rule f(2))
  from f(3) show "name e = ''Error''"
    and "take 44 (message e) = ''Failed to introspect GitLab GraphQL schema: ''"
    by (auto simp add: Error_def)
  fix u' c s2 r sch
  assume "getClient (snd (introspectSchema lib s u)) u' False = (Inr c, s2) \<and>
         request lib (length (requests s2)) (heap s2 ! c) (getIntrospectionQuery lib) None
           = Inr r \<and>
         buildClientSchema lib r = Inr sch"
  then show "introspectSchema lib (snd (introspectSchema lib s u)) u' =
           (Inr (), s2\<lparr>requests := requests s2 @ [(c, getIntrospectionQuery lib)],
                      schema := Some sch\<rparr>)"
    using f(2) by (simp add: introspectSchema_def client_request_def)
qed

theorem failed_introspection_leaves_cache_empty_witness:
  "schema (constructor cfg_hybrid) = None \<and>
   getClient (constructor cfg_hybrid) None False = (Inr 0, constructor cfg_hybrid) \<and>
   request lib_flaky (length (requests (constructor cfg_hybrid))) (heap (constructor cfg_hybrid) ! 0)
     (getIntrospectionQuery lib_flaky) None = Inl \<lparr>name = ''TypeError'', message = ''fetch failed''\<rparr> \<and>
   introspectSchema lib_flaky (constructor cfg_hybrid) None =
     (Inl (Error ''Failed to introspect GitLab GraphQL schema: TypeError: fetch failed''),
      (constructor cfg_hybrid)\<lparr>requests := [(0, getIntrospectionQuery lib_flaky)]\<rparr>) \<and>
   schema (snd (introspectSchema lib_flaky (constructor cfg_hybrid) None)) = None \<and>
   fst (introspectSchema lib_flaky (snd (introspectSchema lib_flaky (constructor cfg_hybrid) None))
     (Some user_abc)) = Inr () \<and>
   schema (snd (introspectSchema lib_flaky
     (snd (introspectSchema lib_flaky (constructor cfg_hybrid) None)) (Some user_abc)))
     = Some sample_schema \<and>
   schema (snd (introspectSchema lib_flaky
     (snd (introspectSchema lib_flaky (constructor cfg_hybrid) None)) None))
     = Some sample_schema"
proof -
  note th = failed_introspection_leaves_cache_empty
    [where s = "constructor cfg_hybrid" and u = None and lib = lib_flaky]
  have n: "schema (constructor cfg_hybrid) = None" by (simp add: constructor_fields)
  have g: "getClient (constructor cfg_hybrid) None False = (Inr 0, constructor cfg_hybrid)"
    by (simp add: getClient_def constructor_def createClient_def cfg_hybrid_def Let_def)
  have r: "request lib_flaky (length (requests (constructor cfg_hybrid)))
     (heap (constructor cfg_hybrid) ! 0) (getIntrospectionQuery lib_flaky) None =
       Inl \<lparr>name = ''TypeError'', message = ''fetch failed''\<rparr>"
    by (simp add: constructor_fields lib_flaky_def)
  from th n g r have a: "introspectSchema lib_flaky (constructor cfg_hybrid) None =
     (Inl (Error ''Failed to introspect GitLab GraphQL schema: TypeError: fetch failed''),
      (constructor cfg_hybrid)\<lparr>requests := [(0, getIntrospectionQuery lib_flaky)]\<rparr>)"
    by (simp add: toString_def constructor_fields)
  have b: "schema (snd (introspectSchema lib_flaky (constructor cfg_hybrid) None)) = None"
    using th a by simp
  show ?thesis
    using n g r a b unfolding a
    by (simp add: introspectSchema_def getClient_def getUserClient_def client_request_def
        constructor_def createClient_def cfg_hybrid_def user_abc_def lib_flaky_def userKey_def
        effectiveUrl_def or_else_def Let_def)
qed

text \<open>
  Claim C9. Once a snapshot is stored, \<open>introspectSchema\<close> returns successfully for
  every credential, also for none, with the state unchanged: no client is resolved (the
  client cache and the store are as before, and the call succeeds where \<open>getClient\<close>
  would throw) and no exchange is logged. \<open>getAvailableQueries\<close> and
  \<open>getAvailableMutations\<close> take no credential and list the field names of the one stored
  snapshot. In the witness the mode is per-user with no shared token, the snapshot was
  introspected under the credential abc, and a caller with no credential, whose every read
  \<open>getClient\<close> rejects, gets that snapshot's lists.
\<close>

theorem stored_snapshot_serves_every_credential:
  assumes "schema s = Some sch"
  shows "introspectSchema lib s u = (Inr (), s) \<and>
         getAvailableQueries s = (case getQueryType sch of None \<Rightarrow> [] | Some t \<Rightarrow> map fst t) \<and>
         getAvailableMutations s =
           (case getMutationType sch of None \<Rightarrow> [] | Some t \<Rightarrow> map fst t)"
  using assms
  by (simp add: introspectSchema_stored getAvailableQueries_def getAvailableMutations_def)

theorem stored_snapshot_serves_every_credential_witness:
  "schema (run lib_up (constructor (cfg_of PerUser None)) [IntrospectSchema (Some user_abc)])
     = Some sample_schema \<and>
   fst (getClient (run lib_up (constructor (cfg_of PerUser None)) [IntrospectSchema (Some user_abc)])
          None False) =
     Inl (Error ''This operation requires user authentication. Please provide your GitLab credentials.'') \<and>
   introspectSchema lib_down
       (run lib_up (constructor (cfg_of PerUser None)) [IntrospectSchema (Some user_abc)]) None =
     (Inr (), run lib_up (constructor (cfg_of PerUser None)) [IntrospectSchema (Some user_abc)]) \<and>
   getAvailableQueries
       (run lib_up (constructor (cfg_of PerUser None)) [IntrospectSchema (Some user_abc)]) =
     [''currentUser'', ''project''] \<and>
   getAvailableMutations
       (run lib_up (constructor (cfg_of PerUser None)) [IntrospectSchema (Some user_abc)]) =
     [''createIssue'']"
proof -
  have a: "schema (run lib_up (constructor (cfg_of PerUser None)) [IntrospectSchema (Some user_abc)])
     = Some sample_schema"
    by (simp add: introspectSchema_def getClient_def getUserClient_def client_request_def
        constructor_def createClient_def cfg_of_def user_abc_def lib_up_def userKey_def
        effectiveUrl_def or_else_def Let_def)
  have b: "fst (getClient (run lib_up (constructor (cfg_of PerUser None)) [IntrospectSchema (Some user_abc)])
          None False) =
     Inl (Error ''This operation requires user authentication. Please provide your GitLab credentials.'')"
    by (simp add: getClient_def introspectSchema_fields constructor_fields cfg_of_def truthy_def)
  from stored_snapshot_serves_every_credential [OF a, of lib_down None] a b
  show ?thesis by (simp add: sample_schema_def)
qed

text \<open>
  Claim C10. The key of a user client is the effective endpoint as given, a colon and the
  token; the endpoint of the client is built from the effective endpoint with one
  trailing slash removed. Two credentials with the same token whose endpoints are \<open>u\<close>
  and \<open>u\<close> followed by a slash (\<open>u\<close> not itself ending in a slash), neither of them
  cached yet, are cached under two keys as two distinct clients, and both clients send
  their requests to the same endpoint. The key is not injective on pairs of endpoint and
  token: (https://gitlab.example.com, 8443:glpat-abc) and (https://gitlab.example.com:8443,
  glpat-abc) are distinct pairs with one key.
\<close>

theorem raw_key_versus_normalised_endpoint:
  assumes "u \<noteq> []" and "last u \<noteq> CHR ''/''"
    and "a = \<lparr>accessToken = t, gitlabUrl_opt = Some u\<rparr>"
    and "b = \<lparr>accessToken = t, gitlabUrl_opt = Some (u @ ''/'')\<rparr>"
    and "map_of (userClients s) (userKey (config s) a) = None"
    and "map_of (userClients s) (userKey (config s) b) = None"
    and "getUserClient s a = (ca, s1)" and "getUserClient s1 b = (cb, s2)"
  shows "userKey (config s) uc =
           or_else (gitlabUrl_opt uc) (gitlabUrl (config s)) @ '':'' @ accessToken uc \<and>
         userKey (config s) a = u @ '':'' @ t \<and> userKey (config s) b = u @ ''/:'' @ t \<and>
         ca \<noteq> cb \<and>
         userClients s2 = userClients s @ [(u @ '':'' @ t, ca), (u @ ''/:'' @ t, cb)] \<and>
         endpoint (heap s2 ! ca) = u @ ''/api/graphql'' \<and>
         endpoint (heap s2 ! cb) = u @ ''/api/graphql'' \<and>
         userKey (config s) user_a = userKey (config s) user_b \<and>
         credentialIdentity (config s) user_a \<noteq> credentialIdentity (config s) user_b"
proof -
  have ka: "userKey (config s) a = u @ '':'' @ t"
    using assms(1,3) by (simp add: userKey_def effectiveUrl_def or_else_def)
  have kb: "userKey (config s) b = u @ ''/:'' @ t"
    using assms(4) by (simp add: userKey_def effectiveUrl_def or_else_def)
  have ea: "effectiveUrl (config s) a = u"
    using assms(1,3) by (simp add: effectiveUrl_def or_else_def)
  have eb: "effectiveUrl (config s) b = u @ ''/''"
    using assms(4) by (simp add: effectiveUrl_def or_else_def)
  from assms(5,7) have ca: "ca = length (heap s)"
    and s1: "s1 = s\<lparr>heap := heap s @
          [\<lparr>endpoint = strip_trailing_slash (effectiveUrl (config s) a) @ ''/api/graphql'',
            headers = [(''Authorization'', ''Bearer '' @ accessToken a),
                       (''Content-Type'', ''application/json'')]\<rparr>],
       userClients := AList.update (userKey (config s) a) (length (heap s)) (userClients s)\<rparr>"
    by (auto simp add: getUserClient_miss)
  have c1: "config s1 = config s" by (simp add: s1)
  have u1: "userClients s1 = userClients s @ [(u @ '':'' @ t, ca)]"
    using assms(5) by (simp add: s1 update_fresh ka ca)
  have fresh: "map_of (userClients s1) (userKey (config s1) b) = None"
    using assms(6) by (simp add: u1 c1 kb)
  from fresh assms(8) have cb: "cb = length (heap s1)"
    and s2: "s2 = s1\<lparr>heap := heap s1 @
          [\<lparr>endpoint = strip_trailing_slash (effectiveUrl (config s1) b) @ ''/api/graphql'',
            headers = [(''Authorization'', ''Bearer '' @ accessToken b),
                       (''Content-Type'', ''application/json'')]\<rparr>],
       userClients := AList.update (userKey (config s1) b) (length (heap s1)) (userClients s1)\<rparr>"
    by (auto simp add: getUserClient_miss)
  have u2: "userClients s2 = userClients s @ [(u @ '':'' @ t, ca), (u @ ''/:'' @ t, cb)]"
    using fresh by (simp add: s2 update_fresh u1 c1 kb cb)
  have h1: "length (heap s1) = Suc (length (heap s))" by (simp add: s1)
  have "ca \<noteq> cb" by (simp add: ca cb h1)
  moreover have "endpoint (heap s2 ! ca) = u @ ''/api/graphql''"
    using assms(1,2) by (simp add: s2 s1 ca nth_append ea strip_trailing_slash_cases)
  moreover have "endpoint (heap s2 ! cb) = u @ ''/api/graphql''"
    by (simp add: s2 cb nth_append c1 eb strip_trailing_slash_cases)
  moreover have "userKey (config s) user_a = userKey (config s) user_b"
    by (simp add: userKey_def effectiveUrl_def or_else_def user_a_def user_b_def)
  moreover have "credentialIdentity (config s) user_a \<noteq> credentialIdentity (config s) user_b"
    by (simp add: credentialIdentity_def user_a_def user_b_def)
  moreover have "userKey (config s) uc =
           or_else (gitlabUrl_opt uc) (gitlabUrl (config s)) @ '':'' @ accessToken uc"
    by (simp add: userKey_def effectiveUrl_def)
  ultimately show ?thesis using ka kb u2 by blast
qed

theorem raw_key_versus_normalised_endpoint_witness:
  "getUserClient (constructor cfg_hybrid) user_plain =
     (1, snd (getUserClient (constructor cfg_hybrid) user_plain)) \<and>
   getUserClient (snd (getUserClient (constructor cfg_hybrid) user_plain)) user_slash =
     (2, run lib_down (constructor cfg_hybrid) [GetUserClient user_plain, GetUserClient user_slash]) \<and>
   userClients (run lib_down (constructor cfg_hybrid)
       [GetUserClient user_plain, GetUserClient user_slash]) =
     [(''https://gitlab.example.com:glpat-abc'', 1), (''https://gitlab.example.com/:glpat-abc'', 2)] \<and>
   endpoint (heap (run lib_down (constructor cfg_hybrid)
       [GetUserClient user_plain, GetUserClient user_slash]) ! 1) =
     ''https://gitlab.example.com/api/graphql'' \<and>
   endpoint (heap (run lib_down (constructor cfg_hybrid)
       [GetUserClient user_plain, GetUserClient user_slash]) ! 2) =
     ''https://gitlab.example.com/api/graphql''"
proof -
  let ?s = "constructor cfg_hybrid"
  have e: "userClients ?s = []" by (simp add: constructor_fields)
  have g1: "getUserClient ?s user_plain = (1, snd (getUserClient ?s user_plain))"
    by (simp add: prod_eq_iff getUserClient_def createClient_def constructor_def cfg_hybrid_def
        user_plain_def userKey_def effectiveUrl_def or_else_def Let_def)
  have g2: "getUserClient (snd (getUserClient ?s user_plain)) user_slash =
     (2, run lib_down ?s [GetUserClient user_plain, GetUserClient user_slash])"
    by (simp add: prod_eq_iff getUserClient_def createClient_def constructor_def cfg_hybrid_def
        user_plain_def user_slash_def userKey_def effectiveUrl_def or_else_def Let_def)
  note th = raw_key_versus_normalised_endpoint
    [where u = "''https://gitlab.example.com''" and t = "''glpat-abc''" and s = ?s
       and a = user_plain and b = user_slash, OF _ _ _ _ _ _ g1 g2]
  have "userClients (run lib_down ?s [GetUserClient user_plain, GetUserClient user_slash]) =
     [(''https://gitlab.example.com:glpat-abc'', 1), (''https://gitlab.example.com/:glpat-abc'', 2)] \<and>
   endpoint (heap (run lib_down ?s [GetUserClient user_plain, GetUserClient user_slash]) ! 1) =
     ''https://gitlab.example.com/api/graphql'' \<and>
   endpoint (heap (run lib_down ?s [GetUserClient user_plain, GetUserClient user_slash]) ! 2) =
     ''https://gitlab.example.com/api/graphql''"
    using th by (simp add: e user_plain_def user_slash_def)
  then show ?thesis using g1 g2 by blast
qed

end
